theory Spec2Isabelle
  imports Main "HOL-Library.Multiset" "HOL-Library.Char_ord"
begin

section \<open>Python values and errors\<close>

text \<open>
  The search client hands \<open>gs.py\<close> loosely structured hits: dictionaries with string
  keys whose values are strings, integers, \<open>None\<close>, lists or further dictionaries.
  A dictionary is kept as an association list in insertion order; \<open>map_of\<close> reads the
  first binding of a key. Floating point values are not part of the model.
\<close>

datatype pyval =
    PNone
  | PInt int
  | PStr string
  | PList "pyval list"
  | PDict "(string \<times> pyval) list"

datatype py_error = AttributeError | TypeError | KeyError

text \<open>Sequencing of fallible steps: the first exception raised ends the computation.\<close>

definition bind_err :: "py_error + 'a \<Rightarrow> ('a \<Rightarrow> py_error + 'b) \<Rightarrow> py_error + 'b" where
  "bind_err m f = (case m of Inl e \<Rightarrow> Inl e | Inr v \<Rightarrow> f v)"

text \<open>
  \<open>obj.get(key, default)\<close>: defined on dictionaries only, any other receiver has no
  attribute \<open>get\<close>.
\<close>

fun dict_get :: "pyval \<Rightarrow> string \<Rightarrow> pyval \<Rightarrow> py_error + pyval" where
  "dict_get (PDict kvs) k d = Inr (case map_of kvs k of Some v \<Rightarrow> v | None \<Rightarrow> d)"
| "dict_get PNone k d = Inl AttributeError"
| "dict_get (PInt i) k d = Inl AttributeError"
| "dict_get (PStr s) k d = Inl AttributeError"
| "dict_get (PList xs) k d = Inl AttributeError"

text \<open>\<open>sep.join(names)\<close> on a list of strings.\<close>

fun join :: "string \<Rightarrow> string list \<Rightarrow> string" where
  "join sep [] = []"
| "join sep [x] = x"
| "join sep (x # y # ys) = x @ sep @ join sep (y # ys)"

fun is_str :: "pyval \<Rightarrow> bool" where
  "is_str (PStr s) = True"
| "is_str PNone = False"
| "is_str (PInt i) = False"
| "is_str (PList xs) = False"
| "is_str (PDict kvs) = False"

fun str_of :: "pyval \<Rightarrow> string" where
  "str_of (PStr s) = s"
| "str_of PNone = []"
| "str_of (PInt i) = []"
| "str_of (PList xs) = []"
| "str_of (PDict kvs) = []"

text \<open>
  \<open>sep.join(v)\<close> on an arbitrary value: a list is joined when all its items are
  strings (\<open>TypeError\<close> otherwise), a string is iterated character by character, a
  dictionary yields its keys, and \<open>None\<close> and integers are not iterable.
\<close>

fun str_join :: "string \<Rightarrow> pyval \<Rightarrow> py_error + string" where
  "str_join sep (PList xs) =
     (if list_all is_str xs then Inr (join sep (map str_of xs)) else Inl TypeError)"
| "str_join sep (PStr s) = Inr (join sep (map (\<lambda>c. [c]) s))"
| "str_join sep (PDict kvs) = Inr (join sep (map fst kvs))"
| "str_join sep PNone = Inl TypeError"
| "str_join sep (PInt i) = Inl TypeError"

text \<open>Truth value of a Python object, as tested by \<open>if link\<close>.\<close>

fun truthy :: "pyval \<Rightarrow> bool" where
  "truthy PNone = False"
| "truthy (PInt i) = (i \<noteq> 0)"
| "truthy (PStr s) = (s \<noteq> [])"
| "truthy (PList xs) = (xs \<noteq> [])"
| "truthy (PDict kvs) = (kvs \<noteq> [])"

section \<open>Result normalizer\<close>

text \<open>
  One row of the table: the dictionary literal of gs.py, lines 32 to 38, with its five
  keys. The frame built from the rows keeps the list of its column labels.
\<close>

record row =
  Title :: pyval
  Authors :: pyval
  Publication_Year :: pyval
  Number_of_Citations :: pyval
  Link :: pyval

record dataframe =
  columns :: "string list"
  rows :: "row list"

text \<open>The body of the loop of \<open>parse_scholarly_papers\<close>, statement by statement.\<close>

definition parse_paper :: "pyval \<Rightarrow> py_error + row" where
  "parse_paper paper =
     bind_err (dict_get paper ''bib'' (PDict [])) (\<lambda>bib1.
     bind_err (dict_get bib1 ''title'' (PStr ''N/A'')) (\<lambda>title.
     bind_err (dict_get paper ''bib'' (PDict [])) (\<lambda>bib2.
     bind_err (dict_get bib2 ''author'' (PList [])) (\<lambda>author.
     bind_err (str_join '', '' author) (\<lambda>authors.
     bind_err (dict_get paper ''bib'' (PDict [])) (\<lambda>bib3.
     bind_err (dict_get bib3 ''pub_year'' (PStr ''N/A'')) (\<lambda>pub_year.
     bind_err (dict_get paper ''num_citations'' (PInt 0)) (\<lambda>citations.
     bind_err (dict_get paper ''pub_url'' (PStr ''N/A'')) (\<lambda>url.
     Inr \<lparr>Title = title, Authors = PStr authors, Publication_Year = pub_year,
          Number_of_Citations = citations, Link = url\<rparr>)))))))))"

text \<open>The loop: rows are appended in the order of the hits, the first exception ends it.\<close>

fun parse_rows :: "pyval list \<Rightarrow> py_error + row list" where
  "parse_rows [] = Inr []"
| "parse_rows (paper # papers) =
     bind_err (parse_paper paper) (\<lambda>r.
     bind_err (parse_rows papers) (\<lambda>rs. Inr (r # rs)))"

text \<open>
  The slice \<open>papers[:top_n]\<close>: a negative bound counts from the end of the list, and
  a bound beyond either end is clipped.
\<close>

definition py_slice_to :: "'a list \<Rightarrow> int \<Rightarrow> 'a list" where
  "py_slice_to xs n =
     (if 0 \<le> n then take (nat n) xs else take (length xs - nat (- n)) xs)"

definition row_keys :: "string list" where
  "row_keys = [''Title'', ''Authors'', ''Publication Year'', ''Number of Citations'', ''Link'']"

definition expected_columns :: "string list" where
  "expected_columns =
     [''Title'', ''Authors'', ''Publication Year'', ''Number of Citations'', ''Link'']"

text \<open>
  \<open>pd.DataFrame(data)\<close> on a list of dictionaries that all have the keys of the
  literal: the columns are those keys, and a frame built from no dictionary has no
  column. The model keeps every cell as the Python value it was given. The library
  chooses one type for each column and stores a column made of integers and \<open>None\<close>
  as floating point numbers; the model does not represent this, so what is stated below
  about the cells of the citation column is stated for hits whose citation counts are
  integers.
\<close>

definition DataFrame :: "row list \<Rightarrow> dataframe" where
  "DataFrame data = \<lparr>columns = (if data = [] then [] else row_keys), rows = data\<rparr>"

text \<open>
  The loop over the expected columns: a label the frame lacks is added as a new last
  column. This happens for the frame without rows only, so no cell is filled.
\<close>

fun add_missing :: "string list \<Rightarrow> dataframe \<Rightarrow> dataframe" where
  "add_missing [] df = df"
| "add_missing (col # cols) df =
     add_missing cols
       (if col \<in> set (columns df) then df else df\<lparr>columns := columns df @ [col]\<rparr>)"

text \<open>\<open>df[labels]\<close>: the columns in the order asked for; an unknown label is a KeyError.\<close>

definition select_columns :: "string list \<Rightarrow> dataframe \<Rightarrow> py_error + dataframe" where
  "select_columns labels df =
     (if set labels \<subseteq> set (columns df) then Inr (df\<lparr>columns := labels\<rparr>) else Inl KeyError)"

definition parse_scholarly_papers :: "pyval list \<Rightarrow> int \<Rightarrow> py_error + dataframe" where
  "parse_scholarly_papers papers top_n =
     bind_err (parse_rows (py_slice_to papers top_n)) (\<lambda>data.
     select_columns expected_columns (add_missing expected_columns (DataFrame data)))"

text \<open>
  The fields of a hit that the normalizer reads: \<open>top_field\<close> for the keys of the hit
  itself, \<open>bib_field\<close> for the keys of its \<open>bib\<close> dictionary.
\<close>

fun top_field :: "pyval \<Rightarrow> string \<Rightarrow> pyval option" where
  "top_field (PDict kvs) k = map_of kvs k"
| "top_field PNone k = None"
| "top_field (PInt i) k = None"
| "top_field (PStr s) k = None"
| "top_field (PList xs) k = None"

definition bib_field :: "pyval \<Rightarrow> string \<Rightarrow> pyval option" where
  "bib_field h k = (case top_field h ''bib'' of None \<Rightarrow> None | Some b \<Rightarrow> top_field b k)"

text \<open>
  The hits on which the loop body raises nothing: a dictionary whose \<open>bib\<close>, when
  there is one, is a dictionary whose \<open>author\<close>, when there is one, can be joined.
\<close>

fun is_dict :: "pyval \<Rightarrow> bool" where
  "is_dict (PDict kvs) = True"
| "is_dict PNone = False"
| "is_dict (PInt i) = False"
| "is_dict (PStr s) = False"
| "is_dict (PList xs) = False"

fun joinable :: "pyval \<Rightarrow> bool" where
  "joinable (PList xs) = list_all is_str xs"
| "joinable (PStr s) = True"
| "joinable (PDict kvs) = True"
| "joinable PNone = False"
| "joinable (PInt i) = False"

text \<open>The citation counts that are integers.\<close>

fun is_int :: "pyval \<Rightarrow> bool" where
  "is_int (PInt i) = True"
| "is_int PNone = False"
| "is_int (PStr s) = False"
| "is_int (PList xs) = False"
| "is_int (PDict kvs) = False"

definition hit_ok :: "pyval \<Rightarrow> bool" where
  "hit_ok h =
     (is_dict h \<and>
      (case top_field h ''bib'' of
         None \<Rightarrow> True
       | Some b \<Rightarrow> is_dict b \<and> (case top_field b ''author'' of None \<Rightarrow> True | Some a \<Rightarrow> joinable a)))"

section \<open>Deduplication by title\<close>

text \<open>
  \<open>papers_df.drop_duplicates(subset='Title', inplace=True)\<close> (gs.py, line 128), with
  the library's default \<open>keep='first'\<close>: the rows are visited in order and a row is
  dropped when the title of an earlier row equals its title. Titles are compared as
  values and no title makes the call raise; a frame without the column raises KeyError.
  \<open>seen\<close> holds the titles met so far. Two dictionaries are equal in the model when
  their association lists are; on the other values the equality of the model is
  Python's.
\<close>

text \<open>The titles that are \<open>None\<close>, an integer or a string.\<close>

fun hashable :: "pyval \<Rightarrow> bool" where
  "hashable PNone = True"
| "hashable (PInt i) = True"
| "hashable (PStr s) = True"
| "hashable (PList xs) = False"
| "hashable (PDict kvs) = False"

fun keep_first :: "pyval list \<Rightarrow> row list \<Rightarrow> row list" where
  "keep_first seen [] = []"
| "keep_first seen (r # rs) =
     (if Title r \<in> set seen then keep_first seen rs else r # keep_first (Title r # seen) rs)"

definition drop_duplicates_Title :: "dataframe \<Rightarrow> py_error + dataframe" where
  "drop_duplicates_Title df =
     (if ''Title'' \<notin> set (columns df) then Inl KeyError
      else Inr (df\<lparr>rows := keep_first [] (rows df)\<rparr>))"

section \<open>Session workflow up to deduplication\<close>

text \<open>
  The retrieval of \<open>main\<close> (gs.py, lines 112 to 128). The search results are the
  sequence the iterator would yield; the loop pulls \<open>top_n * 2\<close> of them or stops
  when they run out. With no paper the workflow reports that none was found; an
  exception of the later steps is caught and reported.
\<close>

datatype outcome = NoPapers | Failed py_error | Table dataframe

definition fetch :: "pyval list \<Rightarrow> int \<Rightarrow> pyval list" where
  "fetch search_results top_n = take (nat (top_n * 2)) search_results"

definition normalize_dedupe :: "pyval list \<Rightarrow> int \<Rightarrow> py_error + dataframe" where
  "normalize_dedupe papers top_n =
     bind_err (parse_scholarly_papers papers top_n) drop_duplicates_Title"

definition retrieve :: "pyval list \<Rightarrow> int \<Rightarrow> outcome" where
  "retrieve search_results top_n =
     (let papers = fetch search_results top_n in
      if papers = [] then NoPapers
      else case normalize_dedupe papers top_n of Inl e \<Rightarrow> Failed e | Inr df \<Rightarrow> Table df)"

section \<open>Sorting\<close>

text \<open>
  The sort of \<open>main\<close> (gs.py, lines 131 to 140). First the chosen column is replaced
  by \<open>pd.to_numeric(column, errors='coerce').fillna(0).astype(int)\<close>: an integer cell
  keeps its value, \<open>None\<close> and cells that are no numbers become NaN and then 0. What a
  string cell denotes is decided by the library's parser, which works in floating
  point; the model takes it as the parameter \<open>num\<close>, where \<open>num s\<close> is the integer the
  string \<open>s\<close> ends up as and \<open>None\<close> says that \<open>s\<close> is not a number. The
  conversion passes through 64-bit integers and floating point numbers, which are exact
  for the integers \<open>small_int\<close> admits (those of absolute value at most 2 to the power
  53); larger integers and strings denoting infinities are outside the model.
\<close>

fun small_int :: "pyval \<Rightarrow> bool" where
  "small_int (PInt i) = (- 9007199254740992 \<le> i \<and> i \<le> 9007199254740992)"
| "small_int PNone = True"
| "small_int (PStr s) = True"
| "small_int (PList xs) = True"
| "small_int (PDict kvs) = True"

fun to_int :: "(string \<Rightarrow> int option) \<Rightarrow> pyval \<Rightarrow> int" where
  "to_int num (PInt i) = i"
| "to_int num (PStr s) = (case num s of Some i \<Rightarrow> i | None \<Rightarrow> 0)"
| "to_int num PNone = 0"
| "to_int num (PList xs) = 0"
| "to_int num (PDict kvs) = 0"

definition coerce_citations :: "(string \<Rightarrow> int option) \<Rightarrow> dataframe \<Rightarrow> dataframe" where
  "coerce_citations num df =
     df\<lparr>rows := map (\<lambda>r. r\<lparr>Number_of_Citations := PInt (to_int num (Number_of_Citations r))\<rparr>)
                  (rows df)\<rparr>"

definition coerce_year :: "(string \<Rightarrow> int option) \<Rightarrow> dataframe \<Rightarrow> dataframe" where
  "coerce_year num df =
     df\<lparr>rows := map (\<lambda>r. r\<lparr>Publication_Year := PInt (to_int num (Publication_Year r))\<rparr>)
                  (rows df)\<rparr>"

text \<open>The integer held by a cell of a column of integers.\<close>

fun int_of :: "pyval \<Rightarrow> int" where
  "int_of (PInt i) = i"
| "int_of PNone = 0"
| "int_of (PStr s) = 0"
| "int_of (PList xs) = 0"
| "int_of (PDict kvs) = 0"

text \<open>
  \<open>sort_values(by=column, ascending=False, inplace=True)\<close> is called with the
  library's default \<open>kind='quicksort'\<close>, for which the library promises the rows
  rearranged into descending order of the column and promises no order among rows of
  equal key (only its kinds \<open>mergesort\<close> and \<open>stable\<close> are stable). The model is
  therefore a relation: it holds between a frame and every frame the call may leave.
\<close>

definition sort_values_desc :: "(row \<Rightarrow> pyval) \<Rightarrow> dataframe \<Rightarrow> dataframe \<Rightarrow> bool" where
  "sort_values_desc col df df' =
     (columns df' = columns df
      \<and> mset (rows df') = mset (rows df)
      \<and> sorted_wrt (\<lambda>a b. int_of (col b) \<le> int_of (col a)) (rows df'))"

definition sort_step :: "(string \<Rightarrow> int option) \<Rightarrow> string \<Rightarrow> dataframe \<Rightarrow> dataframe \<Rightarrow> bool" where
  "sort_step num sort_by df df' =
     (if sort_by = ''Number of Citations''
      then sort_values_desc Number_of_Citations (coerce_citations num df) df'
      else sort_values_desc Publication_Year (coerce_year num df) df')"

text \<open>
  The strings of the examples are integer literals or no numbers at all; on these the
  library's parser is \<open>int_literal\<close>: an optional sign followed by decimal digits.
\<close>

fun digits_value :: "nat \<Rightarrow> string \<Rightarrow> nat option" where
  "digits_value acc [] = Some acc"
| "digits_value acc (c # cs) =
     (if CHR ''0'' \<le> c \<and> c \<le> CHR ''9''
      then digits_value (10 * acc + (of_char c - 48)) cs
      else None)"

definition int_literal :: "string \<Rightarrow> int option" where
  "int_literal s =
     (case s of
        [] \<Rightarrow> None
      | c # cs \<Rightarrow>
          if c = CHR ''-'' then (if cs = [] then None else map_option (\<lambda>n. - int n) (digits_value 0 cs))
          else if c = CHR ''+'' then (if cs = [] then None else map_option int (digits_value 0 cs))
          else map_option int (digits_value 0 s))"

section \<open>Link rendering\<close>

text \<open>
  \<open>make_clickable\<close> (gs.py, lines 53 to 58). The f-string inserts a string argument
  unchanged; for a value of another type it inserts what the built-in \<open>str\<close> gives,
  which the model takes as the parameter \<open>fmt\<close>.
\<close>

definition dq :: char where
  "dq = CHR 0x22"

fun py_format :: "(pyval \<Rightarrow> string) \<Rightarrow> pyval \<Rightarrow> string" where
  "py_format fmt (PStr s) = s"
| "py_format fmt PNone = fmt PNone"
| "py_format fmt (PInt i) = fmt (PInt i)"
| "py_format fmt (PList xs) = fmt (PList xs)"
| "py_format fmt (PDict kvs) = fmt (PDict kvs)"

definition anchor :: "string \<Rightarrow> string" where
  "anchor target =
     ''<a href='' @ [dq] @ target @ [dq] @ '' target='' @ [dq] @ ''_blank'' @ [dq]
       @ ''>View Paper</a>''"

definition make_clickable :: "(pyval \<Rightarrow> string) \<Rightarrow> pyval \<Rightarrow> string" where
  "make_clickable fmt link =
     (if truthy link \<and> link \<noteq> PStr ''N/A'' then anchor (py_format fmt link) else ''N/A'')"

section \<open>Example inputs\<close>

text \<open>Three hits: a complete one, an empty dictionary, and a value that is no dictionary.\<close>

definition example_hits :: "pyval list" where
  "example_hits =
     [PDict [(''bib'', PDict [(''title'', PStr ''A''), (''author'', PList [PStr ''X Li'', PStr ''Y Wu''])]),
             (''num_citations'', PInt 5)],
      PDict [],
      PNone]"

text \<open>Three readable hits: one with three authors, one without any field, one with an empty bib.\<close>

definition authored_hits :: "pyval list" where
  "authored_hits =
     [PDict [(''bib'', PDict [(''title'', PStr ''A''),
                             (''author'', PList [PStr ''X Li'', PStr ''Y Wu'', PStr ''Z Ma''])]),
             (''num_citations'', PInt 5)],
      PDict [],
      PDict [(''bib'', PDict []), (''num_citations'', PInt 3)]]"

text \<open>Scenario 1 of the specification: two hits with the same title.\<close>

definition scenario1 :: "pyval list" where
  "scenario1 =
     [PDict [(''bib'', PDict [(''title'', PStr ''A''), (''pub_year'', PInt 2020)]),
             (''num_citations'', PInt 5)],
      PDict [(''bib'', PDict [(''title'', PStr ''A''), (''pub_year'', PInt 2021)]),
             (''num_citations'', PInt 9)]]"

text \<open>A frame of three rows in which the third repeats the title of the first.\<close>

definition example_frame :: dataframe where
  "example_frame =
     \<lparr>columns = expected_columns,
      rows =
        [\<lparr>Title = PStr ''A'', Authors = PStr ''X Li'', Publication_Year = PStr ''2020'',
           Number_of_Citations = PInt 5, Link = PStr ''http://a1''\<rparr>,
         \<lparr>Title = PStr ''B'', Authors = PStr ''Y Wu'', Publication_Year = PStr ''2021'',
           Number_of_Citations = PInt 7, Link = PStr ''N/A''\<rparr>,
         \<lparr>Title = PStr ''A'', Authors = PStr ''Z Ma'', Publication_Year = PStr ''2022'',
           Number_of_Citations = PInt 9, Link = PStr ''http://a2''\<rparr>]\<rparr>"

text \<open>
  Twenty fetched hits for a limit of ten: the first ten carry nine different titles
  (the first title twice), the last ten carry ten further titles.
\<close>

definition titled :: "string \<Rightarrow> pyval" where
  "titled t = PDict [(''bib'', PDict [(''title'', PStr t)])]"

definition twenty_hits :: "pyval list" where
  "twenty_hits =
     map titled
       [''T0'', ''T0'', ''T1'', ''T2'', ''T3'', ''T4'', ''T5'', ''T6'', ''T7'', ''T8'',
        ''T9'', ''T10'', ''T11'', ''T12'', ''T13'', ''T14'', ''T15'', ''T16'', ''T17'', ''T18'']"

text \<open>Three hits of which two lack a title and differ in their url.\<close>

definition untitled_hits :: "pyval list" where
  "untitled_hits =
     [PDict [(''pub_url'', PStr ''http://p1'')],
      titled ''A'',
      PDict [(''bib'', PDict [(''pub_year'', PStr ''2019'')]), (''pub_url'', PStr ''http://p2'')]]"

text \<open>Scenario 2 of the specification: one hit whose year is the marker "N/A".\<close>

definition scenario2 :: "pyval list" where
  "scenario2 = [PDict [(''bib'', PDict [(''title'', PStr ''B''), (''pub_year'', PStr ''N/A'')])]]"

definition scenario2_row :: row where
  "scenario2_row =
     \<lparr>Title = PStr ''B'', Authors = PStr [], Publication_Year = PStr ''N/A'',
      Number_of_Citations = PInt 0, Link = PStr ''N/A''\<rparr>"

definition scenario2_frame :: dataframe where
  "scenario2_frame = \<lparr>columns = expected_columns, rows = [scenario2_row]\<rparr>"

definition scenario2_sorted :: dataframe where
  "scenario2_sorted =
     \<lparr>columns = expected_columns, rows = [scenario2_row\<lparr>Publication_Year := PInt 0\<rparr>]\<rparr>"

text \<open>Two records of the same year, and the frame a descending sort by year leaves.\<close>

definition tie_a :: row where
  "tie_a =
     \<lparr>Title = PStr ''A'', Authors = PStr ''X Li'', Publication_Year = PStr ''2020'',
      Number_of_Citations = PInt 5, Link = PStr ''N/A''\<rparr>"

definition tie_b :: row where
  "tie_b =
     \<lparr>Title = PStr ''B'', Authors = PStr ''Y Wu'', Publication_Year = PStr ''2020'',
      Number_of_Citations = PInt 7, Link = PStr ''N/A''\<rparr>"

definition tie_frame :: dataframe where
  "tie_frame = \<lparr>columns = expected_columns, rows = [tie_a, tie_b]\<rparr>"

definition tie_kept :: dataframe where
  "tie_kept =
     \<lparr>columns = expected_columns,
      rows = [tie_a\<lparr>Publication_Year := PInt 2020\<rparr>, tie_b\<lparr>Publication_Year := PInt 2020\<rparr>]\<rparr>"

section \<open>Helper lemmas\<close>

lemma bind_err_Inr_iff: "bind_err m f = Inr y \<longleftrightarrow> (\<exists>v. m = Inr v \<and> f v = Inr y)"
  by (cases m) (simp_all add: bind_err_def)

lemma parse_paper_Inr_iff: "(\<exists>r. parse_paper h = Inr r) \<longleftrightarrow> hit_ok h"
proof (cases h)
  case (PDict kvs)
  show ?thesis
  proof (cases "map_of kvs ''bib''")
    case None
    with PDict show ?thesis
      by (simp add: parse_paper_def hit_ok_def bind_err_def)
  next
    case (Some b)
    show ?thesis
    proof (cases "is_dict b")
      case False
      with PDict Some show ?thesis
        by (cases b) (simp_all add: parse_paper_def hit_ok_def bind_err_def)
    next
      case True
      then obtain bs where b: "b = PDict bs" by (cases b) simp_all
      show ?thesis
      proof (cases "map_of bs ''author''")
        case None
        with PDict Some b show ?thesis
          by (simp add: parse_paper_def hit_ok_def bind_err_def)
      next
        case (Some a)
        with PDict \<open>map_of kvs ''bib'' = Some b\<close> b show ?thesis
          by (cases a) (simp_all add: parse_paper_def hit_ok_def bind_err_def)
      qed
    qed
  qed
qed (simp_all add: parse_paper_def hit_ok_def bind_err_def)

lemma parse_paper_bib:
  assumes "top_field h ''bib'' = Some (PDict bs)"
  shows "parse_paper h =
     bind_err (str_join '', '' (case map_of bs ''author'' of Some a \<Rightarrow> a | None \<Rightarrow> PList []))
       (\<lambda>authors. Inr \<lparr>Title = (case map_of bs ''title'' of Some v \<Rightarrow> v | None \<Rightarrow> PStr ''N/A''),
          Authors = PStr authors,
          Publication_Year = (case map_of bs ''pub_year'' of Some v \<Rightarrow> v | None \<Rightarrow> PStr ''N/A''),
          Number_of_Citations = (case top_field h ''num_citations'' of Some v \<Rightarrow> v | None \<Rightarrow> PInt 0),
          Link = (case top_field h ''pub_url'' of Some v \<Rightarrow> v | None \<Rightarrow> PStr ''N/A'')\<rparr>)"
proof -
  from assms obtain kvs where h: "h = PDict kvs" by (cases h) simp_all
  with assms have "map_of kvs ''bib'' = Some (PDict bs)" by simp
  then show ?thesis
    unfolding h parse_paper_def by (simp add: bind_err_def)
qed

lemma parse_paper_no_bib:
  assumes "is_dict h" and "top_field h ''bib'' = None"
  shows "parse_paper h =
     Inr \<lparr>Title = PStr ''N/A'', Authors = PStr [], Publication_Year = PStr ''N/A'',
          Number_of_Citations = (case top_field h ''num_citations'' of Some v \<Rightarrow> v | None \<Rightarrow> PInt 0),
          Link = (case top_field h ''pub_url'' of Some v \<Rightarrow> v | None \<Rightarrow> PStr ''N/A'')\<rparr>"
proof -
  from assms obtain kvs where h: "h = PDict kvs" by (cases h) simp_all
  with assms have "map_of kvs ''bib'' = None" by simp
  then show ?thesis
    unfolding h parse_paper_def by (simp add: bind_err_def)
qed

lemma hit_ok_cases:
  assumes "hit_ok h"
  obtains (no_bib) "is_dict h" "top_field h ''bib'' = None"
        | (bib) bs where "top_field h ''bib'' = Some (PDict bs)"
            "joinable (case map_of bs ''author'' of Some a \<Rightarrow> a | None \<Rightarrow> PList [])"
proof (cases "top_field h ''bib''")
  case None
  with assms no_bib show ?thesis by (simp add: hit_ok_def)
next
  case (Some b)
  with assms have "is_dict b" by (simp add: hit_ok_def)
  then obtain bs where b: "b = PDict bs" by (cases b) simp_all
  with assms Some have "joinable (case map_of bs ''author'' of Some a \<Rightarrow> a | None \<Rightarrow> PList [])"
    by (simp add: hit_ok_def split: option.splits)
  with Some b bib show ?thesis by simp
qed

lemma str_join_joinable:
  "joinable v \<Longrightarrow> \<exists>s. str_join sep v = Inr s"
  by (cases v) simp_all

lemma parse_paper_fields:
  assumes "parse_paper h = Inr r"
  shows "Title r = (case bib_field h ''title'' of Some v \<Rightarrow> v | None \<Rightarrow> PStr ''N/A'')
    \<and> (\<exists>s. str_join '', '' (case bib_field h ''author'' of Some a \<Rightarrow> a | None \<Rightarrow> PList []) = Inr s
          \<and> Authors r = PStr s)
    \<and> Publication_Year r = (case bib_field h ''pub_year'' of Some v \<Rightarrow> v | None \<Rightarrow> PStr ''N/A'')
    \<and> Number_of_Citations r = (case top_field h ''num_citations'' of Some v \<Rightarrow> v | None \<Rightarrow> PInt 0)
    \<and> Link r = (case top_field h ''pub_url'' of Some v \<Rightarrow> v | None \<Rightarrow> PStr ''N/A'')"
proof -
  from assms have "hit_ok h" using parse_paper_Inr_iff by blast
  then show ?thesis
  proof (cases rule: hit_ok_cases)
    case no_bib
    from parse_paper_no_bib [OF no_bib] assms no_bib(2) show ?thesis
      by (auto simp: bib_field_def)
  next
    case (bib bs)
    from str_join_joinable [OF bib(2)] obtain s
      where s: "str_join '', '' (case map_of bs ''author'' of Some a \<Rightarrow> a | None \<Rightarrow> PList []) = Inr s"
      by blast
    from parse_paper_bib [OF bib(1)] assms s bib(1) show ?thesis
      by (auto simp: bib_field_def bind_err_def)
  qed
qed

lemma parse_rows_Inr_iff:
  "parse_rows hs = Inr rs \<longleftrightarrow> list_all2 (\<lambda>h r. parse_paper h = Inr r) hs rs"
proof (induction hs arbitrary: rs)
  case Nil
  show ?case by auto
next
  case (Cons h hs)
  show ?case
    by (cases rs) (auto simp: bind_err_Inr_iff Cons.IH)
qed

lemma parse_rows_total:
  "(\<exists>rs. parse_rows hs = Inr rs) \<longleftrightarrow> list_all hit_ok hs"
proof (induction hs)
  case Nil
  show ?case by simp
next
  case (Cons h hs)
  have "(\<exists>rs. parse_rows (h # hs) = Inr rs)
        \<longleftrightarrow> (\<exists>r. parse_paper h = Inr r) \<and> (\<exists>rs. parse_rows hs = Inr rs)"
    by (auto simp: bind_err_Inr_iff)
  then show ?case
    by (simp add: Cons.IH parse_paper_Inr_iff)
qed

lemma rows_add_missing: "rows (add_missing cols df) = rows df"
  by (induction cols df rule: add_missing.induct) auto

lemma columns_add_missing_mono: "set (columns df) \<subseteq> set (columns (add_missing cols df))"
  by (induction cols df rule: add_missing.induct) auto

lemma columns_add_missing: "set cols \<subseteq> set (columns (add_missing cols df))"
proof (induction cols df rule: add_missing.induct)
  case (1 df)
  show ?case by simp
next
  case (2 col cols df)
  let ?df' = "if col \<in> set (columns df) then df else df\<lparr>columns := columns df @ [col]\<rparr>"
  have "col \<in> set (columns ?df')" by simp
  with columns_add_missing_mono [of ?df' cols] have "col \<in> set (columns (add_missing cols ?df'))"
    by blast
  with 2 show ?case by simp
qed

lemma parse_scholarly_papers_Inr_iff:
  "parse_scholarly_papers papers top_n = Inr df
   \<longleftrightarrow> parse_rows (py_slice_to papers top_n) = Inr (rows df) \<and> columns df = expected_columns"
proof -
  have "select_columns expected_columns (add_missing expected_columns (DataFrame data))
        = Inr \<lparr>columns = expected_columns, rows = data\<rparr>" for data
    using columns_add_missing [of expected_columns "DataFrame data"]
      rows_add_missing [of expected_columns "DataFrame data"]
    by (simp add: select_columns_def DataFrame_def)
  then show ?thesis
    unfolding parse_scholarly_papers_def bind_err_Inr_iff by auto
qed

lemma py_slice_to_nonneg: "0 \<le> n \<Longrightarrow> py_slice_to xs n = take (nat n) xs"
  by (simp add: py_slice_to_def)

lemma parse_rows_nth:
  assumes "parse_rows hs = Inr rs" and "i < length rs"
  shows "parse_paper (hs ! i) = Inr (rs ! i)"
  using assms by (simp add: parse_rows_Inr_iff list_all2_conv_all_nth)

lemma str_join_names: "str_join sep (PList (map PStr names)) = Inr (join sep names)"
  by (simp add: list_all_iff comp_def)

lemma str_join_empty: "str_join sep (PList []) = Inr []"
  by simp

lemma parse_scholarly_papers_length:
  assumes "parse_scholarly_papers papers top_n = Inr df" and "0 \<le> top_n"
  shows "length (rows df) = min (nat top_n) (length papers)"
  using assms
  by (auto simp: parse_scholarly_papers_Inr_iff parse_rows_Inr_iff py_slice_to_nonneg
      dest!: list_all2_lengthD)

lemma map_nth_filter_Cons:
  "map (nth (r # rs)) (filter Q [0..<length (r # rs)])
   = (if Q 0 then [r] else []) @ map (nth rs) (filter (\<lambda>i. Q (Suc i)) [0..<length rs])"
proof -
  have "[0..<length (r # rs)] = 0 # map Suc [0..<length rs]"
    by (simp add: upt_conv_Cons map_Suc_upt del: upt_Suc)
  then show ?thesis
    by (simp add: filter_map comp_def)
qed

lemma keep_first_nth:
  "keep_first seen rs =
     map (nth rs) (filter (\<lambda>i. Title (rs ! i) \<notin> set seen \<union> Title ` set (take i rs)) [0..<length rs])"
proof (induction rs arbitrary: seen)
  case Nil
  show ?case by simp
next
  case (Cons r rs)
  let ?Q = "\<lambda>i. Title ((r # rs) ! i) \<notin> set seen \<union> Title ` set (take i (r # rs))"
  have split: "map (nth (r # rs)) (filter ?Q [0..<length (r # rs)])
      = (if ?Q 0 then [r] else []) @ map (nth rs) (filter (\<lambda>i. ?Q (Suc i)) [0..<length rs])"
    by (rule map_nth_filter_Cons)
  have Q0: "?Q 0 \<longleftrightarrow> Title r \<notin> set seen" by simp
  show ?case
  proof (cases "Title r \<in> set seen")
    case True
    then have "(\<lambda>i. ?Q (Suc i)) = (\<lambda>i. Title (rs ! i) \<notin> set seen \<union> Title ` set (take i rs))"
      by (intro ext) auto
    with True Q0 split Cons.IH [of seen] show ?thesis by simp
  next
    case False
    have "(\<lambda>i. ?Q (Suc i))
          = (\<lambda>i. Title (rs ! i) \<notin> set (Title r # seen) \<union> Title ` set (take i rs))"
      by (intro ext) auto
    with False Q0 split Cons.IH [of "Title r # seen"] show ?thesis by simp
  qed
qed

lemma keep_first_titles: "Title ` set (keep_first seen rs) = Title ` set rs - set seen"
  by (induction rs arbitrary: seen) auto

lemma keep_first_distinct: "distinct (map Title (keep_first seen rs))"
proof (induction rs arbitrary: seen)
  case Nil
  show ?case by simp
next
  case (Cons r rs)
  have "Title r \<notin> Title ` set (keep_first (Title r # seen) rs)"
    by (simp add: keep_first_titles)
  with Cons show ?case by simp
qed

lemma keep_first_id:
  "distinct (map Title rs) \<Longrightarrow> Title ` set rs \<inter> set seen = {} \<Longrightarrow> keep_first seen rs = rs"
proof (induction rs arbitrary: seen)
  case Nil
  show ?case by simp
next
  case (Cons r rs)
  from Cons.prems have "Title ` set rs \<inter> set (Title r # seen) = {}" by auto
  with Cons show ?case by auto
qed

lemma keep_first_idem: "keep_first [] (keep_first [] rs) = keep_first [] rs"
  by (rule keep_first_id) (simp_all add: keep_first_distinct)

lemma scenario1_dedupe:
  "normalize_dedupe scenario1 10
   = Inr \<lparr>columns = [''Title'', ''Authors'', ''Publication Year'', ''Number of Citations'', ''Link''],
          rows = [\<lparr>Title = PStr ''A'', Authors = PStr [], Publication_Year = PInt 2020,
                   Number_of_Citations = PInt 5, Link = PStr ''N/A''\<rparr>]\<rparr>"
  by (simp add: normalize_dedupe_def parse_scholarly_papers_def py_slice_to_def scenario1_def
      parse_paper_def bind_err_def DataFrame_def row_keys_def expected_columns_def
      select_columns_def drop_duplicates_Title_def)

lemma filter_count_list_all2:
  assumes "list_all2 R hs rs" and "\<And>h r. R h r \<Longrightarrow> P h \<Longrightarrow> Q r"
  shows "length (filter P hs) \<le> length (filter Q rs)"
  using assms by (induction rule: list_all2_induct) auto

lemma list_all_list_all2:
  assumes "list_all2 R hs rs" and "list_all P hs" and "\<And>h r. R h r \<Longrightarrow> P h \<Longrightarrow> Q r"
  shows "list_all Q rs"
  using assms by (induction rule: list_all2_induct) auto

lemma distinct_filter_one:
  "distinct (map f xs) \<Longrightarrow> t \<in> f ` set xs \<Longrightarrow> length (filter (\<lambda>x. f x = t) xs) = 1"
proof (induction xs)
  case Nil
  then show ?case by simp
next
  case (Cons x xs)
  show ?case
  proof (cases "f x = t")
    case True
    with Cons.prems have "t \<notin> f ` set xs" by auto
    then have "filter (\<lambda>x. f x = t) xs = []" by (auto simp: filter_empty_conv)
    with True show ?thesis by simp
  next
    case False
    with Cons show ?thesis by auto
  qed
qed

lemma fetch_slice:
  assumes "0 \<le> top_n"
  shows "py_slice_to (fetch results top_n) top_n = take (nat top_n) results"
proof -
  from assms have "nat top_n \<le> nat (top_n * 2)" by simp
  then have "take (nat top_n) (take (nat (top_n * 2)) results) = take (nat top_n) results"
    by (simp add: min_def)
  with assms show ?thesis
    by (simp add: py_slice_to_def fetch_def)
qed

lemma twenty_hits_retrieve:
  "retrieve twenty_hits 10
   = Table \<lparr>columns = expected_columns,
       rows = map (\<lambda>t. \<lparr>Title = PStr t, Authors = PStr [], Publication_Year = PStr ''N/A'',
                         Number_of_Citations = PInt 0, Link = PStr ''N/A''\<rparr>)
                [''T0'', ''T1'', ''T2'', ''T3'', ''T4'', ''T5'', ''T6'', ''T7'', ''T8'']\<rparr>"
  by (simp add: retrieve_def fetch_def twenty_hits_def titled_def normalize_dedupe_def
      parse_scholarly_papers_def py_slice_to_def parse_paper_def bind_err_def DataFrame_def
      row_keys_def expected_columns_def select_columns_def drop_duplicates_Title_def)

lemma twenty_hits_titles:
  "card (set (map (\<lambda>h. bib_field h ''title'') twenty_hits)) = 19"
  by (simp add: twenty_hits_def titled_def bib_field_def card_set)

lemma sort_values_desc_exists: "\<exists>df'. sort_values_desc col df df'"
proof -
  let ?rs = "rev (sort_key (\<lambda>r. int_of (col r)) (rows df))"
  have "sorted (map (\<lambda>r. int_of (col r)) (sort_key (\<lambda>r. int_of (col r)) (rows df)))"
    by simp
  then have "sorted_wrt (\<lambda>a b. int_of (col a) \<le> int_of (col b)) (sort_key (\<lambda>r. int_of (col r)) (rows df))"
    by (simp add: sorted_wrt_map)
  then have "sorted_wrt (\<lambda>a b. int_of (col b) \<le> int_of (col a)) ?rs"
    by (simp add: sorted_wrt_rev)
  moreover have "mset ?rs = mset (rows df)" by simp
  ultimately have "sort_values_desc col df (df\<lparr>rows := ?rs\<rparr>)"
    by (simp add: sort_values_desc_def)
  then show ?thesis ..
qed

lemma sort_step_exists: "\<exists>df'. sort_step num sort_by df df'"
  by (cases "sort_by = ''Number of Citations''") (simp_all add: sort_step_def sort_values_desc_exists)

lemma sort_step_tie_kept: "sort_step int_literal ''Publication Year'' tie_frame tie_kept"
  by (simp add: sort_step_def sort_values_desc_def coerce_year_def tie_frame_def tie_kept_def
      tie_a_def tie_b_def int_literal_def)

lemma mset_map_preimage:
  "mset ys = mset (map f xs) \<Longrightarrow> \<exists>rs. mset rs = mset xs \<and> map f rs = ys"
proof (induction ys arbitrary: xs)
  case Nil
  then show ?case by simp
next
  case (Cons y ys)
  from Cons.prems have "set (y # ys) = set (map f xs)"
    by (rule mset_eq_setD)
  then have "y \<in> set (map f xs)"
    by (metis list.set_intros(1))
  then obtain x where x: "x \<in> set xs" and y: "f x = y" by auto
  let ?xs' = "remove1 x xs"
  from x have xs: "mset xs = add_mset x (mset ?xs')" by simp
  then have "mset (map f xs) = add_mset y (mset (map f ?xs'))"
    using y by (metis image_mset_add_mset mset_map)
  with Cons.prems have "mset ys = mset (map f ?xs')" by simp
  from Cons.IH [OF this] obtain rs where rs: "mset rs = mset ?xs'" and m: "map f rs = ys" by blast
  from rs xs have "mset (x # rs) = mset xs" by (metis mset.simps(2))
  moreover from m y have "map f (x # rs) = y # ys" by simp
  ultimately show ?case by (intro exI [of _ "x # rs"] conjI)
qed

lemma sort_values_desc_coerced:
  assumes "sort_values_desc col (df\<lparr>rows := map c (rows df)\<rparr>) df'"
    and "\<And>r. int_of (col (c r)) = k r"
  shows "\<exists>rs. mset rs = mset (rows df) \<and> sorted_wrt (\<lambda>a b. k b \<le> k a) rs \<and> rows df' = map c rs"
proof -
  from assms(1) have "mset (rows df') = mset (map c (rows df))"
    and srt: "sorted_wrt (\<lambda>a b. int_of (col b) \<le> int_of (col a)) (rows df')"
    by (simp_all add: sort_values_desc_def)
  from mset_map_preimage [OF this(1)] obtain rs
    where rs: "mset rs = mset (rows df)" and m: "map c rs = rows df'" by blast
  from srt m have "sorted_wrt (\<lambda>a b. int_of (col b) \<le> int_of (col a)) (map c rs)" by simp
  then have "sorted_wrt (\<lambda>a b. k b \<le> k a) rs"
    by (simp add: sorted_wrt_map assms(2))
  with rs m show ?thesis by auto
qed

lemma scenario2_dedupe: "normalize_dedupe scenario2 10 = Inr scenario2_frame"
  by (simp add: normalize_dedupe_def parse_scholarly_papers_def py_slice_to_def scenario2_def
      parse_paper_def bind_err_def DataFrame_def row_keys_def expected_columns_def
      select_columns_def drop_duplicates_Title_def scenario2_frame_def scenario2_row_def)

lemma sort_year_scenario2:
  assumes "num ''N/A'' = None"
  shows "sort_step num ''Publication Year'' scenario2_frame df' \<longleftrightarrow> df' = scenario2_sorted"
proof -
  have "to_int num (Publication_Year scenario2_row) = 0"
    using assms by (simp add: scenario2_row_def)
  then have "coerce_year num scenario2_frame = scenario2_sorted"
    by (simp add: coerce_year_def scenario2_frame_def scenario2_sorted_def)
  moreover have "sort_values_desc Publication_Year scenario2_sorted df' \<longleftrightarrow> df' = scenario2_sorted"
    by (cases df') (auto simp: sort_values_desc_def scenario2_sorted_def)
  ultimately show ?thesis
    by (simp add: sort_step_def)
qed

lemma foldl_sep_prefix:
  "foldl (\<lambda>acc m. acc @ sep @ m) (p @ n) ns = p @ foldl (\<lambda>acc m. acc @ sep @ m) n ns"
  by (induction ns arbitrary: n) simp_all

lemma join_foldl:
  "join sep names = (case names of [] \<Rightarrow> [] | n # ns \<Rightarrow> foldl (\<lambda>acc m. acc @ sep @ m) n ns)"
proof (induction sep names rule: join.induct)
  case (3 sep x y ys)
  have "foldl (\<lambda>acc m. acc @ sep @ m) (x @ sep @ y) ys
        = (x @ sep) @ foldl (\<lambda>acc m. acc @ sep @ m) y ys"
    using foldl_sep_prefix [of sep "x @ sep" y ys] by simp
  with 3 show ?case by simp
qed simp_all

section \<open>Properties of the normalizer\<close>

text \<open>
  C1. For a limit L that is not negative and hits whose first L entries are hits the
  normalizer can read, parse_scholarly_papers returns a frame of exactly min(L, |H|) rows
  whose columns are Title, Authors, Publication Year, Number of Citations, Link in this
  order; the hits after the first L are not looked at (the result is that of the first L
  hits alone, whatever follows them), and the empty sequence of hits gives the frame
  with these five columns and no row.
\<close>

theorem parse_length_columns:
  assumes "0 \<le> top_n" and "list_all hit_ok (take (nat top_n) papers)"
  shows "\<exists>df. parse_scholarly_papers papers top_n = Inr df
           \<and> length (rows df) = min (nat top_n) (length papers)
           \<and> columns df = [''Title'', ''Authors'', ''Publication Year'', ''Number of Citations'', ''Link'']
           \<and> parse_scholarly_papers (take (nat top_n) papers) top_n = Inr df
           \<and> parse_scholarly_papers [] top_n
               = Inr \<lparr>columns = [''Title'', ''Authors'', ''Publication Year'', ''Number of Citations'', ''Link''],
                      rows = []\<rparr>"
proof -
  from assms(2) obtain rs where rs: "parse_rows (take (nat top_n) papers) = Inr rs"
    using parse_rows_total by blast
  then have len: "length rs = length (take (nat top_n) papers)"
    by (auto simp: parse_rows_Inr_iff dest: list_all2_lengthD)
  let ?df = "\<lparr>columns = expected_columns, rows = rs\<rparr>"
  from rs assms(1) have "parse_scholarly_papers papers top_n = Inr ?df"
    by (simp add: parse_scholarly_papers_Inr_iff py_slice_to_nonneg)
  moreover from rs assms(1) have "parse_scholarly_papers (take (nat top_n) papers) top_n = Inr ?df"
    by (simp add: parse_scholarly_papers_Inr_iff py_slice_to_nonneg)
  moreover have "parse_scholarly_papers [] top_n = Inr \<lparr>columns = expected_columns, rows = []\<rparr>"
    by (simp add: parse_scholarly_papers_Inr_iff py_slice_to_def)
  moreover from len have "length (rows ?df) = min (nat top_n) (length papers)"
    by (simp add: min.commute)
  ultimately show ?thesis
    by (simp add: expected_columns_def)
qed

theorem parse_length_columns_witness:
  "(0::int) \<le> 2 \<and> list_all hit_ok (take (nat 2) example_hits)
   \<and> (\<exists>df. parse_scholarly_papers example_hits 2 = Inr df
           \<and> length (rows df) = min (nat 2) (length example_hits)
           \<and> columns df = [''Title'', ''Authors'', ''Publication Year'', ''Number of Citations'', ''Link'']
           \<and> parse_scholarly_papers (take (nat 2) example_hits) 2 = Inr df
           \<and> parse_scholarly_papers [] 2
               = Inr \<lparr>columns = [''Title'', ''Authors'', ''Publication Year'', ''Number of Citations'', ''Link''],
                      rows = []\<rparr>)"
proof -
  have a: "(0::int) \<le> 2" by simp
  have b: "list_all hit_ok (take (nat 2) example_hits)"
    by (simp add: example_hits_def hit_ok_def)
  from a b parse_length_columns [OF a b] show ?thesis by (intro conjI)
qed

text \<open>
  C4. For a limit that is not negative and readable hits whose citation counts, where
  present, are integers, every row of the result carries the default of each field its
  hit lacks: "N/A" for a missing title, the empty string for missing authors, "N/A" for
  a missing publication year, the integer 0 for a missing citation count and "N/A" for
  a missing url; no cell is left undefined. Authors given as a list of names are joined
  with ", " in the order of the list: the first name, then ", " and the next name for
  each further name.
\<close>

theorem parse_defaults:
  assumes "0 \<le> top_n" and "list_all hit_ok (take (nat top_n) papers)"
    and "list_all (\<lambda>h. case top_field h ''num_citations'' of None \<Rightarrow> True | Some c \<Rightarrow> is_int c)
           (take (nat top_n) papers)"
  shows "\<exists>df. parse_scholarly_papers papers top_n = Inr df \<and>
     (\<forall>i < length (rows df).
        (bib_field (papers ! i) ''title'' = None \<longrightarrow> Title (rows df ! i) = PStr ''N/A'')
      \<and> (bib_field (papers ! i) ''author'' = None \<longrightarrow> Authors (rows df ! i) = PStr [])
      \<and> (bib_field (papers ! i) ''pub_year'' = None \<longrightarrow> Publication_Year (rows df ! i) = PStr ''N/A'')
      \<and> (top_field (papers ! i) ''num_citations'' = None \<longrightarrow> Number_of_Citations (rows df ! i) = PInt 0)
      \<and> (top_field (papers ! i) ''pub_url'' = None \<longrightarrow> Link (rows df ! i) = PStr ''N/A'')
      \<and> (\<forall>names. bib_field (papers ! i) ''author'' = Some (PList (map PStr names))
            \<longrightarrow> Authors (rows df ! i) = PStr (join '', '' names)
              \<and> Authors (rows df ! i)
                  = PStr (case names of [] \<Rightarrow> []
                          | n # ns \<Rightarrow> foldl (\<lambda>acc m. acc @ '', '' @ m) n ns)))"
proof -
  from assms(2) obtain rs where rs: "parse_rows (take (nat top_n) papers) = Inr rs"
    using parse_rows_total by blast
  let ?df = "\<lparr>columns = expected_columns, rows = rs\<rparr>"
  from rs assms(1) have df: "parse_scholarly_papers papers top_n = Inr ?df"
    by (simp add: parse_scholarly_papers_Inr_iff py_slice_to_nonneg)
  have len: "length rs = length (take (nat top_n) papers)"
    using rs by (auto simp: parse_rows_Inr_iff dest: list_all2_lengthD)
  have "parse_paper (papers ! i) = Inr (rs ! i)" if "i < length rs" for i
    using parse_rows_nth [OF rs that] that len by simp
  then have fields: "i < length rs \<Longrightarrow>
        (bib_field (papers ! i) ''title'' = None \<longrightarrow> Title (rs ! i) = PStr ''N/A'')
      \<and> (bib_field (papers ! i) ''author'' = None \<longrightarrow> Authors (rs ! i) = PStr [])
      \<and> (bib_field (papers ! i) ''pub_year'' = None \<longrightarrow> Publication_Year (rs ! i) = PStr ''N/A'')
      \<and> (top_field (papers ! i) ''num_citations'' = None \<longrightarrow> Number_of_Citations (rs ! i) = PInt 0)
      \<and> (top_field (papers ! i) ''pub_url'' = None \<longrightarrow> Link (rs ! i) = PStr ''N/A'')
      \<and> (\<forall>names. bib_field (papers ! i) ''author'' = Some (PList (map PStr names))
            \<longrightarrow> Authors (rs ! i) = PStr (join '', '' names))" for i
    using parse_paper_fields [of "papers ! i" "rs ! i"]
    by (auto simp: str_join_names str_join_empty simp del: str_join.simps)
  show ?thesis
  proof (intro exI [of _ ?df] conjI allI impI)
    show "parse_scholarly_papers papers top_n = Inr ?df" by (rule df)
  next
    fix i assume "i < length (rows ?df)"
    then have i: "i < length rs" by simp
    from fields [OF i]
    show "bib_field (papers ! i) ''title'' = None \<Longrightarrow> Title (rows ?df ! i) = PStr ''N/A''"
      and "bib_field (papers ! i) ''author'' = None \<Longrightarrow> Authors (rows ?df ! i) = PStr []"
      and "bib_field (papers ! i) ''pub_year'' = None \<Longrightarrow> Publication_Year (rows ?df ! i) = PStr ''N/A''"
      and "top_field (papers ! i) ''num_citations'' = None \<Longrightarrow> Number_of_Citations (rows ?df ! i) = PInt 0"
      and "top_field (papers ! i) ''pub_url'' = None \<Longrightarrow> Link (rows ?df ! i) = PStr ''N/A''"
      by simp_all
    fix names assume "bib_field (papers ! i) ''author'' = Some (PList (map PStr names))"
    with fields [OF i] have a: "Authors (rs ! i) = PStr (join '', '' names)" by blast
    then show "Authors (rows ?df ! i) = PStr (join '', '' names)" by simp
    from a show "Authors (rows ?df ! i)
                  = PStr (case names of [] \<Rightarrow> []
                          | n # ns \<Rightarrow> foldl (\<lambda>acc m. acc @ '', '' @ m) n ns)"
      by (simp add: join_foldl [of "'', ''" names])
  qed
qed

theorem parse_defaults_witness:
  "(0::int) \<le> 3 \<and> list_all hit_ok (take (nat 3) authored_hits)
   \<and> list_all (\<lambda>h. case top_field h ''num_citations'' of None \<Rightarrow> True | Some c \<Rightarrow> is_int c)
         (take (nat 3) authored_hits)
   \<and> (\<exists>df. parse_scholarly_papers authored_hits 3 = Inr df
         \<and> Title (rows df ! 1) = PStr ''N/A''
         \<and> Authors (rows df ! 1) = PStr []
         \<and> Publication_Year (rows df ! 1) = PStr ''N/A''
         \<and> Number_of_Citations (rows df ! 1) = PInt 0
         \<and> Link (rows df ! 1) = PStr ''N/A''
         \<and> Title (rows df ! 2) = PStr ''N/A''
         \<and> Authors (rows df ! 0) = PStr ''X Li, Y Wu, Z Ma'')"
proof -
  have a: "(0::int) \<le> 3" by simp
  have b: "list_all hit_ok (take (nat 3) authored_hits)"
    by (simp add: authored_hits_def hit_ok_def)
  have c: "list_all (\<lambda>h. case top_field h ''num_citations'' of None \<Rightarrow> True | Some c \<Rightarrow> is_int c)
         (take (nat 3) authored_hits)"
    by (simp add: authored_hits_def)
  from parse_defaults [OF a b c] obtain df
    where df: "parse_scholarly_papers authored_hits 3 = Inr df"
      and fields: "\<And>i. i < length (rows df) \<Longrightarrow>
        (bib_field (authored_hits ! i) ''title'' = None \<longrightarrow> Title (rows df ! i) = PStr ''N/A'')
      \<and> (bib_field (authored_hits ! i) ''author'' = None \<longrightarrow> Authors (rows df ! i) = PStr [])
      \<and> (bib_field (authored_hits ! i) ''pub_year'' = None \<longrightarrow> Publication_Year (rows df ! i) = PStr ''N/A'')
      \<and> (top_field (authored_hits ! i) ''num_citations'' = None \<longrightarrow> Number_of_Citations (rows df ! i) = PInt 0)
      \<and> (top_field (authored_hits ! i) ''pub_url'' = None \<longrightarrow> Link (rows df ! i) = PStr ''N/A'')
      \<and> (\<forall>names. bib_field (authored_hits ! i) ''author'' = Some (PList (map PStr names))
            \<longrightarrow> Authors (rows df ! i) = PStr (join '', '' names)
              \<and> Authors (rows df ! i)
                  = PStr (case names of [] \<Rightarrow> []
                          | n # ns \<Rightarrow> foldl (\<lambda>acc m. acc @ '', '' @ m) n ns))"
    by blast
  from parse_scholarly_papers_length [OF df a] have len: "length (rows df) = 3"
    by (simp add: authored_hits_def)
  then have i0: "0 < length (rows df)" and i1: "1 < length (rows df)" and i2: "2 < length (rows df)"
    by simp_all
  have "bib_field (authored_hits ! 0) ''author'' = Some (PList (map PStr [''X Li'', ''Y Wu'', ''Z Ma'']))"
    by (simp add: authored_hits_def bib_field_def)
  with fields [OF i0]
  have "Authors (rows df ! 0)
         = PStr (case [''X Li'', ''Y Wu'', ''Z Ma''] of [] \<Rightarrow> []
                 | n # ns \<Rightarrow> foldl (\<lambda>acc m. acc @ '', '' @ m) n ns)"
    by blast
  then have r0: "Authors (rows df ! 0) = PStr ''X Li, Y Wu, Z Ma''" by simp
  have "bib_field (authored_hits ! 1) ''title'' = None" "bib_field (authored_hits ! 1) ''author'' = None"
    "bib_field (authored_hits ! 1) ''pub_year'' = None" "top_field (authored_hits ! 1) ''num_citations'' = None"
    "top_field (authored_hits ! 1) ''pub_url'' = None"
    by (simp_all add: authored_hits_def bib_field_def)
  with fields [OF i1] have r1: "Title (rows df ! 1) = PStr ''N/A''" "Authors (rows df ! 1) = PStr []"
    "Publication_Year (rows df ! 1) = PStr ''N/A''" "Number_of_Citations (rows df ! 1) = PInt 0"
    "Link (rows df ! 1) = PStr ''N/A''"
    by simp_all
  have "bib_field (authored_hits ! 2) ''title'' = None"
    by (simp add: authored_hits_def bib_field_def)
  with fields [OF i2] have r2: "Title (rows df ! 2) = PStr ''N/A''" by simp
  from a b c df r0 r1 r2 show ?thesis by blast
qed

text \<open>
  C6, as the code has it. The normalizer does not return on every malformed hit: a hit
  whose bib is None raises AttributeError.
\<close>

theorem parse_raises_on_malformed:
  "parse_scholarly_papers [PDict [(''bib'', PNone)]] 10 = Inl AttributeError"
  by (simp add: parse_scholarly_papers_def py_slice_to_def parse_paper_def bind_err_def)

text \<open>
  C6, amended. For every limit, parse_scholarly_papers returns a frame exactly when each
  hit of the slice is a dictionary whose bib, when present, is a dictionary whose author,
  when present, can be joined (a list of strings, a string or a dictionary). Missing
  fields never make it raise: a dictionary without bib, and one whose bib is a
  dictionary without author, are such hits whatever else they lack.
\<close>

theorem parse_returns_iff:
  "((\<exists>df. parse_scholarly_papers papers top_n = Inr df)
      \<longleftrightarrow> list_all hit_ok (py_slice_to papers top_n))
   \<and> (is_dict h \<and> top_field h ''bib'' = None \<longrightarrow> hit_ok h)
   \<and> (is_dict h \<and> top_field h ''bib'' = Some b \<and> is_dict b \<and> top_field b ''author'' = None
        \<longrightarrow> hit_ok h)"
proof -
  have "(\<exists>df. parse_scholarly_papers papers top_n = Inr df)
        \<longleftrightarrow> (\<exists>rs. parse_rows (py_slice_to papers top_n) = Inr rs)"
  proof
    assume "\<exists>df. parse_scholarly_papers papers top_n = Inr df"
    then show "\<exists>rs. parse_rows (py_slice_to papers top_n) = Inr rs"
      unfolding parse_scholarly_papers_Inr_iff by blast
  next
    assume "\<exists>rs. parse_rows (py_slice_to papers top_n) = Inr rs"
    then obtain rs where "parse_rows (py_slice_to papers top_n) = Inr rs" ..
    then have "parse_scholarly_papers papers top_n = Inr \<lparr>columns = expected_columns, rows = rs\<rparr>"
      by (simp add: parse_scholarly_papers_Inr_iff)
    then show "\<exists>df. parse_scholarly_papers papers top_n = Inr df" ..
  qed
  then show ?thesis
    by (simp add: parse_rows_total hit_ok_def)
qed

theorem parse_returns_iff_witness:
  "list_all hit_ok (py_slice_to [PDict [], PDict [(''bib'', PDict [])]] 5)
   \<and> (\<exists>df. parse_scholarly_papers [PDict [], PDict [(''bib'', PDict [])]] 5 = Inr df)
   \<and> hit_ok (PDict [])
   \<and> hit_ok (PDict [(''bib'', PDict [])])"
proof -
  have a: "list_all hit_ok (py_slice_to [PDict [], PDict [(''bib'', PDict [])]] 5)"
    by (simp add: py_slice_to_def hit_ok_def)
  from parse_returns_iff [of "[PDict [], PDict [(''bib'', PDict [])]]" 5 "PDict []" PNone] a
  have b: "\<exists>df. parse_scholarly_papers [PDict [], PDict [(''bib'', PDict [])]] 5 = Inr df"
    and c: "hit_ok (PDict [])"
    by simp_all
  from parse_returns_iff [of "[]" 0 "PDict [(''bib'', PDict [])]" "PDict []"]
  have d: "hit_ok (PDict [(''bib'', PDict [])])"
    by simp
  from a b c d show ?thesis by blast
qed

section \<open>Properties of deduplication\<close>

text \<open>
  C5. On a frame that has the Title column and hashable titles (strings, as the
  normalizer yields for hits with string titles), deduplication returns the frame whose
  rows are the rows at the positions i such that no row before position i has the same
  Title, in their original order: exactly the records repeating an earlier title are
  removed, the first occurrence is kept, and the columns are unchanged. For scenario 1
  (two hits titled "A" with 5 and 9 citations, limit 10), normalizing and deduplicating
  yields exactly one record, titled "A", with citation count 5.
\<close>

theorem drop_duplicates_keeps_first:
  assumes "''Title'' \<in> set (columns df)" and "list_all (\<lambda>r. hashable (Title r)) (rows df)"
  shows "(\<exists>df'. drop_duplicates_Title df = Inr df'
            \<and> rows df' = map (nth (rows df))
                 (filter (\<lambda>i. Title (rows df ! i) \<notin> Title ` set (take i (rows df)))
                    [0..<length (rows df)])
            \<and> columns df' = columns df)
     \<and> normalize_dedupe scenario1 10
         = Inr \<lparr>columns = [''Title'', ''Authors'', ''Publication Year'', ''Number of Citations'', ''Link''],
                rows = [\<lparr>Title = PStr ''A'', Authors = PStr [], Publication_Year = PInt 2020,
                         Number_of_Citations = PInt 5, Link = PStr ''N/A''\<rparr>]\<rparr>"
proof -
  from assms have "drop_duplicates_Title df = Inr (df\<lparr>rows := keep_first [] (rows df)\<rparr>)"
    by (simp add: drop_duplicates_Title_def)
  moreover have "keep_first [] (rows df) = map (nth (rows df))
                 (filter (\<lambda>i. Title (rows df ! i) \<notin> Title ` set (take i (rows df)))
                    [0..<length (rows df)])"
    using keep_first_nth [of "[]" "rows df"] by simp
  ultimately show ?thesis
    using scenario1_dedupe by simp
qed

theorem drop_duplicates_keeps_first_witness:
  "''Title'' \<in> set (columns example_frame)
   \<and> list_all (\<lambda>r. hashable (Title r)) (rows example_frame)
   \<and> (\<exists>df'. drop_duplicates_Title example_frame = Inr df'
          \<and> rows df' = [rows example_frame ! 0, rows example_frame ! 1]
          \<and> columns df' = columns example_frame)"
proof -
  have a: "''Title'' \<in> set (columns example_frame)"
    by (simp add: example_frame_def expected_columns_def)
  have b: "list_all (\<lambda>r. hashable (Title r)) (rows example_frame)"
    by (simp add: example_frame_def)
  have c: "map (nth (rows example_frame))
             (filter (\<lambda>i. Title (rows example_frame ! i) \<notin> Title ` set (take i (rows example_frame)))
                [0..<length (rows example_frame)])
           = [rows example_frame ! 0, rows example_frame ! 1]"
    by (simp add: example_frame_def upt_rec)
  from drop_duplicates_keeps_first [OF a b] c a b show ?thesis by auto
qed

text \<open>
  C8. Deduplication is idempotent: deduplicating the result of a deduplication gives
  that result again (an exception of the first pass stays that exception), and on the
  rows themselves keeping first occurrences twice is keeping them once.
\<close>

theorem drop_duplicates_idempotent:
  "bind_err (drop_duplicates_Title df) drop_duplicates_Title = drop_duplicates_Title df
   \<and> keep_first [] (keep_first [] rs) = keep_first [] rs"
  by (simp add: drop_duplicates_Title_def bind_err_def keep_first_idem)

text \<open>
  C10. A missing title is replaced by "N/A" before the rows are deduplicated by title.
  So when two or more of the first L hits lack a title (the hits being readable, their
  present titles hashable, L not negative), the normalized frame has two or more rows
  titled "N/A" and the deduplicated frame has exactly one: the title-less hits collapse
  into a single record, whatever else tells them apart.
\<close>

theorem untitled_collapse:
  assumes "0 \<le> top_n"
    and "list_all hit_ok (take (nat top_n) papers)"
    and "list_all (\<lambda>h. case bib_field h ''title'' of None \<Rightarrow> True | Some t \<Rightarrow> hashable t)
           (take (nat top_n) papers)"
    and "2 \<le> length (filter (\<lambda>h. bib_field h ''title'' = None) (take (nat top_n) papers))"
  shows "\<exists>df df'. parse_scholarly_papers papers top_n = Inr df
           \<and> drop_duplicates_Title df = Inr df'
           \<and> 2 \<le> length (filter (\<lambda>r. Title r = PStr ''N/A'') (rows df))
           \<and> length (filter (\<lambda>r. Title r = PStr ''N/A'') (rows df')) = 1"
proof -
  let ?hs = "take (nat top_n) papers"
  let ?R = "\<lambda>h r. parse_paper h = Inr r"
  from assms(2) obtain rs where rs: "parse_rows ?hs = Inr rs"
    using parse_rows_total by blast
  then have rel: "list_all2 ?R ?hs rs"
    by (simp add: parse_rows_Inr_iff)
  let ?df = "\<lparr>columns = expected_columns, rows = rs\<rparr>"
  from rs assms(1) have df: "parse_scholarly_papers papers top_n = Inr ?df"
    by (simp add: parse_scholarly_papers_Inr_iff py_slice_to_nonneg)
  have title: "Title r = (case bib_field h ''title'' of Some v \<Rightarrow> v | None \<Rightarrow> PStr ''N/A'')"
    if "?R h r" for h r
    using parse_paper_fields [OF that] by simp
  have "length (filter (\<lambda>h. bib_field h ''title'' = None) ?hs)
        \<le> length (filter (\<lambda>r. Title r = PStr ''N/A'') rs)"
    by (rule filter_count_list_all2 [OF rel]) (simp add: title)
  with assms(4) have two: "2 \<le> length (filter (\<lambda>r. Title r = PStr ''N/A'') rs)"
    by simp
  have hash: "list_all (\<lambda>r. hashable (Title r)) rs"
    by (rule list_all_list_all2 [OF rel assms(3)]) (auto simp: title split: option.splits)
  let ?df' = "?df\<lparr>rows := keep_first [] rs\<rparr>"
  from hash have dd: "drop_duplicates_Title ?df = Inr ?df'"
    by (simp add: drop_duplicates_Title_def expected_columns_def)
  from two have "filter (\<lambda>r. Title r = PStr ''N/A'') rs \<noteq> []" by auto
  then obtain r where "r \<in> set rs" and "Title r = PStr ''N/A''"
    unfolding filter_empty_conv by blast
  then have "PStr ''N/A'' \<in> Title ` set rs"
    by (metis imageI)
  then have "PStr ''N/A'' \<in> Title ` set (keep_first [] rs)"
    by (simp add: keep_first_titles)
  with keep_first_distinct [of "[]" rs]
  have one: "length (filter (\<lambda>r. Title r = PStr ''N/A'') (keep_first [] rs)) = 1"
    by (rule distinct_filter_one)
  from df dd two one show ?thesis
    by (intro exI [of _ ?df] exI [of _ ?df']) simp
qed

theorem untitled_collapse_witness:
  "(0::int) \<le> 3
   \<and> list_all hit_ok (take (nat 3) untitled_hits)
   \<and> list_all (\<lambda>h. case bib_field h ''title'' of None \<Rightarrow> True | Some t \<Rightarrow> hashable t)
         (take (nat 3) untitled_hits)
   \<and> 2 \<le> length (filter (\<lambda>h. bib_field h ''title'' = None) (take (nat 3) untitled_hits))
   \<and> (\<exists>df df'. parse_scholarly_papers untitled_hits 3 = Inr df
           \<and> drop_duplicates_Title df = Inr df'
           \<and> 2 \<le> length (filter (\<lambda>r. Title r = PStr ''N/A'') (rows df))
           \<and> length (filter (\<lambda>r. Title r = PStr ''N/A'') (rows df')) = 1)"
proof -
  have a: "(0::int) \<le> 3" by simp
  have b: "list_all hit_ok (take (nat 3) untitled_hits)"
    by (simp add: untitled_hits_def titled_def hit_ok_def)
  have c: "list_all (\<lambda>h. case bib_field h ''title'' of None \<Rightarrow> True | Some t \<Rightarrow> hashable t)
         (take (nat 3) untitled_hits)"
    by (simp add: untitled_hits_def titled_def bib_field_def)
  have d: "2 \<le> length (filter (\<lambda>h. bib_field h ''title'' = None) (take (nat 3) untitled_hits))"
    by (simp add: untitled_hits_def titled_def bib_field_def)
  from a b c d untitled_collapse [OF a b c d] show ?thesis by (intro conjI)
qed

section \<open>Properties of the workflow\<close>

text \<open>
  C9. The workflow fetches up to 2N hits, normalizes the first N of them only, and
  deduplicates afterwards: for a limit N that is not negative, the deduplicated frame
  of the fetched hits is that of the first N search results, so the hits fetched beyond
  N never reach the table. For the twenty hits of the example and N = 10 the hits carry
  at least ten (in fact nineteen) different titles, and the table has nine rows.
\<close>

theorem truncate_before_dedupe:
  assumes "0 \<le> top_n"
  shows "normalize_dedupe (fetch results top_n) top_n
           = bind_err (parse_scholarly_papers (take (nat top_n) results) top_n) drop_duplicates_Title
     \<and> length twenty_hits = 2 * 10
     \<and> 10 \<le> card (set (map (\<lambda>h. bib_field h ''title'') twenty_hits))
     \<and> (\<exists>df. retrieve twenty_hits 10 = Table df \<and> length (rows df) = 9)"
proof -
  have "parse_scholarly_papers (fetch results top_n) top_n
        = parse_scholarly_papers (take (nat top_n) results) top_n"
    using assms fetch_slice [OF assms, of results]
    by (simp add: parse_scholarly_papers_def py_slice_to_nonneg)
  then have "normalize_dedupe (fetch results top_n) top_n
           = bind_err (parse_scholarly_papers (take (nat top_n) results) top_n) drop_duplicates_Title"
    by (simp add: normalize_dedupe_def)
  moreover have "length twenty_hits = 2 * 10"
    by (simp add: twenty_hits_def)
  moreover have "10 \<le> card (set (map (\<lambda>h. bib_field h ''title'') twenty_hits))"
    unfolding twenty_hits_titles by simp
  moreover have "\<exists>df. retrieve twenty_hits 10 = Table df \<and> length (rows df) = 9"
    unfolding twenty_hits_retrieve by simp
  ultimately show ?thesis
    by (intro conjI)
qed

theorem truncate_before_dedupe_witness:
  "(0::int) \<le> 10
   \<and> normalize_dedupe (fetch twenty_hits 10) 10
       = bind_err (parse_scholarly_papers (take (nat 10) twenty_hits) 10) drop_duplicates_Title
   \<and> length twenty_hits = 2 * 10
   \<and> 10 \<le> card (set (map (\<lambda>h. bib_field h ''title'') twenty_hits))
   \<and> (\<exists>df. retrieve twenty_hits 10 = Table df \<and> length (rows df) = 9)"
proof -
  have a: "(0::int) \<le> 10" by simp
  from a truncate_before_dedupe [OF a, of twenty_hits] show ?thesis by blast
qed

section \<open>Properties of sorting\<close>

text \<open>
  Coercion and order. For every frame whose integer cells are small and either sort
  key, the sort step has an outcome, and every outcome holds the records of the frame,
  rearranged into descending order of the integer their cell of the chosen column is
  coerced to, with that cell replaced by the integer; the columns are unchanged. The
  coercion sends a missing value (None) and a string that is no number to 0. The order
  among records of equal key is left to the library's sort routine and is not stated
  here: whether the sort is stable is not settled by this development.
\<close>

lemma sort_step_descending:
  assumes "list_all (\<lambda>r. small_int (Number_of_Citations r) \<and> small_int (Publication_Year r)) (rows df)"
  shows "(\<exists>df''. sort_step num sort_by df df'')
     \<and> (sort_step num sort_by df df' \<longrightarrow>
          columns df' = columns df
          \<and> (sort_by = ''Number of Citations'' \<longrightarrow>
               (\<exists>rs. mset rs = mset (rows df)
                  \<and> sorted_wrt (\<lambda>a b. to_int num (Number_of_Citations b) \<le> to_int num (Number_of_Citations a)) rs
                  \<and> rows df' = map (\<lambda>r. r\<lparr>Number_of_Citations := PInt (to_int num (Number_of_Citations r))\<rparr>) rs))
          \<and> (sort_by \<noteq> ''Number of Citations'' \<longrightarrow>
               (\<exists>rs. mset rs = mset (rows df)
                  \<and> sorted_wrt (\<lambda>a b. to_int num (Publication_Year b) \<le> to_int num (Publication_Year a)) rs
                  \<and> rows df' = map (\<lambda>r. r\<lparr>Publication_Year := PInt (to_int num (Publication_Year r))\<rparr>) rs)))
     \<and> to_int num PNone = 0
     \<and> (num s = None \<longrightarrow> to_int num (PStr s) = 0)"
proof -
  have cit: "\<exists>rs. mset rs = mset (rows df)
              \<and> sorted_wrt (\<lambda>a b. to_int num (Number_of_Citations b) \<le> to_int num (Number_of_Citations a)) rs
              \<and> rows df' = map (\<lambda>r. r\<lparr>Number_of_Citations := PInt (to_int num (Number_of_Citations r))\<rparr>) rs"
    if "sort_step num sort_by df df'" and "sort_by = ''Number of Citations''"
  proof (rule sort_values_desc_coerced [where col = Number_of_Citations])
    from that
    show "sort_values_desc Number_of_Citations
            (df\<lparr>rows := map (\<lambda>r. r\<lparr>Number_of_Citations := PInt (to_int num (Number_of_Citations r))\<rparr>) (rows df)\<rparr>) df'"
      by (simp add: sort_step_def coerce_citations_def)
  qed simp
  have yr: "\<exists>rs. mset rs = mset (rows df)
              \<and> sorted_wrt (\<lambda>a b. to_int num (Publication_Year b) \<le> to_int num (Publication_Year a)) rs
              \<and> rows df' = map (\<lambda>r. r\<lparr>Publication_Year := PInt (to_int num (Publication_Year r))\<rparr>) rs"
    if "sort_step num sort_by df df'" and "sort_by \<noteq> ''Number of Citations''"
  proof (rule sort_values_desc_coerced [where col = Publication_Year])
    from that
    show "sort_values_desc Publication_Year
            (df\<lparr>rows := map (\<lambda>r. r\<lparr>Publication_Year := PInt (to_int num (Publication_Year r))\<rparr>) (rows df)\<rparr>) df'"
      by (simp add: sort_step_def coerce_year_def)
  qed simp
  have cols: "columns df' = columns df" if "sort_step num sort_by df df'"
    using that
    by (cases "sort_by = ''Number of Citations''")
      (simp_all add: sort_step_def sort_values_desc_def coerce_citations_def coerce_year_def)
  have tail: "to_int num PNone = 0 \<and> (num s = None \<longrightarrow> to_int num (PStr s) = 0)"
    by simp
  from cit yr cols sort_step_exists [of num sort_by df] tail show ?thesis by blast
qed

lemma sort_step_descending_example:
  "list_all (\<lambda>r. small_int (Number_of_Citations r) \<and> small_int (Publication_Year r)) (rows tie_frame)
   \<and> sort_step int_literal ''Publication Year'' tie_frame tie_kept
   \<and> (\<exists>rs. mset rs = mset (rows tie_frame)
        \<and> sorted_wrt (\<lambda>a b. to_int int_literal (Publication_Year b) \<le> to_int int_literal (Publication_Year a)) rs
        \<and> rows tie_kept = map (\<lambda>r. r\<lparr>Publication_Year := PInt (to_int int_literal (Publication_Year r))\<rparr>) rs)
   \<and> columns tie_kept = columns tie_frame
   \<and> int_literal ''N/A'' = None
   \<and> to_int int_literal (PStr ''N/A'') = 0"
proof -
  have h: "list_all (\<lambda>r. small_int (Number_of_Citations r) \<and> small_int (Publication_Year r)) (rows tie_frame)"
    by (simp add: tie_frame_def tie_a_def tie_b_def)
  have a: "sort_step int_literal ''Publication Year'' tie_frame tie_kept"
    by (rule sort_step_tie_kept)
  have b: "int_literal ''N/A'' = None" by (simp add: int_literal_def)
  from sort_step_descending [OF h, of int_literal "''Publication Year''" tie_kept "''N/A''"] h a b
  show ?thesis by simp
qed

text \<open>
  C3, as the code has it. For the hit of scenario 2 sorted by publication year the sort
  step has one outcome, and in it the Publication Year cell, "N/A" before the step, is
  the integer 0: no outcome still shows "N/A".
\<close>

theorem sort_year_marker_overwritten:
  "sort_step int_literal ''Publication Year'' scenario2_frame scenario2_sorted
   \<and> map Publication_Year (rows scenario2_frame) = [PStr ''N/A'']
   \<and> map Publication_Year (rows scenario2_sorted) = [PInt 0]
   \<and> \<not> (\<exists>df'. sort_step int_literal ''Publication Year'' scenario2_frame df'
            \<and> map Publication_Year (rows df') = [PStr ''N/A''])"
proof -
  have a: "int_literal ''N/A'' = None" by (simp add: int_literal_def)
  have b: "sort_step int_literal ''Publication Year'' scenario2_frame df' \<longleftrightarrow> df' = scenario2_sorted" for df'
    by (rule sort_year_scenario2 [of int_literal df', OF a])
  show ?thesis
    by (simp add: b) (simp add: scenario2_frame_def scenario2_sorted_def scenario2_row_def)
qed

text \<open>
  C3, amended. For the hit of scenario 2 (title "B", year "N/A"), a string parser that
  takes "N/A" for no number, and the sort by publication year: normalizing and
  deduplicating gives the frame of the one record; the coerced sort value of the record
  is 0; the sort step has exactly one outcome, in which the record is still present
  (titled "B") and its Publication Year cell is the integer 0, the coercion having
  replaced the displayed value.
\<close>

theorem sort_year_marker:
  assumes "num ''N/A'' = None"
  shows "normalize_dedupe scenario2 10 = Inr scenario2_frame
     \<and> (sort_step num ''Publication Year'' scenario2_frame df' \<longleftrightarrow> df' = scenario2_sorted)
     \<and> to_int num (Publication_Year scenario2_row) = 0
     \<and> map Title (rows scenario2_sorted) = [PStr ''B'']
     \<and> map Publication_Year (rows scenario2_sorted) = [PInt 0]"
  using assms sort_year_scenario2 [of num df', OF assms] scenario2_dedupe
  by (simp add: scenario2_row_def scenario2_sorted_def)

theorem sort_year_marker_witness:
  "int_literal ''N/A'' = None
   \<and> normalize_dedupe scenario2 10 = Inr scenario2_frame
   \<and> sort_step int_literal ''Publication Year'' scenario2_frame scenario2_sorted
   \<and> to_int int_literal (Publication_Year scenario2_row) = 0
   \<and> map Title (rows scenario2_sorted) = [PStr ''B'']
   \<and> map Publication_Year (rows scenario2_sorted) = [PInt 0]"
proof -
  have a: "int_literal ''N/A'' = None" by (simp add: int_literal_def)
  from sort_year_marker [of int_literal scenario2_sorted, OF a] a show ?thesis by simp
qed

section \<open>Properties of link rendering\<close>

text \<open>
  C7, as the code has it. A url that is present and is not the marker does not always
  give a hyperlink: for the empty string, which is neither None nor "N/A",
  make_clickable returns "N/A".
\<close>

theorem make_clickable_empty_url:
  "make_clickable str_of (PStr []) = ''N/A'' \<and> PStr [] \<noteq> PStr ''N/A'' \<and> PStr [] \<noteq> PNone"
  by (simp add: make_clickable_def)

text \<open>
  C7, amended. For every url that is a string or None, make_clickable returns the
  hyperlink element whose href is the url, whose target attribute is "_blank" (a new
  viewing context) and whose visible text is "View Paper" if and only if the url is a
  string that is neither empty nor the marker "N/A"; for None, the empty string and the
  marker it returns the literal text "N/A", which is no hyperlink. In particular the url
  "http://x" gives the element labelled "View Paper" targeting "http://x", and an
  absent url (None) gives "N/A".
\<close>

theorem make_clickable_link:
  "make_clickable fmt (PStr s)
     = (if s \<noteq> [] \<and> s \<noteq> ''N/A''
        then ''<a href='' @ [CHR 0x22] @ s @ [CHR 0x22] @ '' target='' @ [CHR 0x22] @ ''_blank''
               @ [CHR 0x22] @ ''>View Paper</a>''
        else ''N/A'')
   \<and> make_clickable fmt PNone = ''N/A''
   \<and> ''<a href='' @ [CHR 0x22] @ s @ [CHR 0x22] @ '' target='' @ [CHR 0x22] @ ''_blank''
               @ [CHR 0x22] @ ''>View Paper</a>'' \<noteq> ''N/A''
   \<and> make_clickable fmt (PStr ''http://x'')
       = ''<a href='' @ [CHR 0x22] @ ''http://x'' @ [CHR 0x22] @ '' target='' @ [CHR 0x22]
           @ ''_blank'' @ [CHR 0x22] @ ''>View Paper</a>''"
  by (simp add: make_clickable_def anchor_def dq_def)

end
